theory Spec2Isabelle
  imports Main "HOL-Library.Sublist" "HOL-Library.Monad_Syntax"
begin

section \<open>The touch command: configuration parser and renderer\<close>

text \<open>
  A shallow embedding of \<^verbatim>\<open>src/touch/touch.cpp\<close>. A \<^verbatim>\<open>std::string\<close> is a
  \<^typ>\<open>string\<close> (a list of bytes), a \<^verbatim>\<open>size_t\<close> is a \<^typ>\<open>nat\<close> below
  \<open>2 ^ 64\<close> whose arithmetic wraps around, and a \<^verbatim>\<open>std::out_of_range\<close> thrown by
  the string library is the value \<open>None\<close>. The three global containers and the three
  local variables of the parser loop are the fields of one record that is passed from
  line to line.
\<close>

subsection \<open>Characters\<close>

definition tab :: char where
  "tab = CHR 0x09"

definition nl :: char where
  "nl = CHR 0x0A"

definition dquote :: char where
  "dquote = CHR 0x22"

definition squote :: char where
  "squote = CHR 0x27"

definition backslash :: char where
  "backslash = CHR 0x5C"

text \<open>The argument \<^verbatim>\<open>" \t"\<close> of the trimming calls.\<close>

definition blanks :: string where
  "blanks = [CHR '' '', tab]"

subsection \<open>The size type and the string library\<close>

definition npos :: nat where
  "npos = 2 ^ 64 - 1"

definition sz_add :: "nat \<Rightarrow> nat \<Rightarrow> nat" where
  "sz_add a b = (a + b) mod 2 ^ 64"

definition sz_sub :: "nat \<Rightarrow> nat \<Rightarrow> nat" where
  "sz_sub a b = nat ((int a - int b) mod 2 ^ 64)"

text \<open>\<^verbatim>\<open>s.find_first_not_of(cs)\<close>: the first index whose character is not in \<open>cs\<close>.\<close>

definition find_first_not_of :: "string \<Rightarrow> string \<Rightarrow> nat" where
  "find_first_not_of s cs =
     (let n = length (takeWhile (\<lambda>c. c \<in> set cs) s)
      in if n < length s then n else npos)"

text \<open>\<^verbatim>\<open>s.find_last_not_of(cs)\<close>: the last index whose character is not in \<open>cs\<close>.\<close>

definition find_last_not_of :: "string \<Rightarrow> string \<Rightarrow> nat" where
  "find_last_not_of s cs =
     (let n = length (takeWhile (\<lambda>c. c \<in> set cs) (rev s))
      in if n < length s then length s - 1 - n else npos)"

text \<open>\<^verbatim>\<open>s.find_last_of(cs)\<close>: the last index whose character is in \<open>cs\<close>.\<close>

definition find_last_of :: "string \<Rightarrow> string \<Rightarrow> nat" where
  "find_last_of s cs =
     (let n = length (takeWhile (\<lambda>c. c \<notin> set cs) (rev s))
      in if n < length s then length s - 1 - n else npos)"

text \<open>\<^verbatim>\<open>s.find(c, pos)\<close>: the first index from \<open>pos\<close> on that holds \<open>c\<close>.\<close>

definition find_chr :: "string \<Rightarrow> char \<Rightarrow> nat \<Rightarrow> nat" where
  "find_chr s c pos =
     (let n = length (takeWhile (\<lambda>x. x \<noteq> c) (drop pos s))
      in if pos + n < length s then pos + n else npos)"

text \<open>\<^verbatim>\<open>s.find(pat)\<close>: the first index at which \<open>pat\<close> occurs, searched from \<open>i\<close>.\<close>

fun find_str_from :: "string \<Rightarrow> string \<Rightarrow> nat \<Rightarrow> nat" where
  "find_str_from [] pat i = (if pat = [] then i else npos)"
| "find_str_from (c # s) pat i =
     (if prefix pat (c # s) then i else find_str_from s pat (Suc i))"

definition find_str :: "string \<Rightarrow> string \<Rightarrow> nat" where
  "find_str s pat = find_str_from s pat 0"

text \<open>
  \<^verbatim>\<open>s.erase(index, count)\<close> and \<^verbatim>\<open>s.substr(pos, count)\<close> throw when the start lies
  beyond the end of the string, and clamp the count to what is left of it.
\<close>

definition erase :: "string \<Rightarrow> nat \<Rightarrow> nat \<Rightarrow> string option" where
  "erase s index count =
     (if index > length s then None
      else Some (take index s @ drop (index + min count (length s - index)) s))"

definition substr :: "string \<Rightarrow> nat \<Rightarrow> nat \<Rightarrow> string option" where
  "substr s pos count =
     (if pos > length s then None
      else Some (take (min count (length s - pos)) (drop pos s)))"

text \<open>
  The two statements that trim a string in place:
  \<^verbatim>\<open>s.erase(0, s.find_first_not_of(" \t")); s.erase(s.find_last_not_of(" \t") + 1);\<close>
\<close>

definition trim_ws :: "string \<Rightarrow> string option" where
  "trim_ws s = do {
     s1 \<leftarrow> erase s 0 (find_first_not_of s blanks);
     erase s1 (sz_add (find_last_not_of s1 blanks) 1) npos
   }"

text \<open>\<^verbatim>\<open>std::getline\<close> in a loop: the lines of a text, without their terminators.\<close>

fun getlines :: "string \<Rightarrow> string \<Rightarrow> string list" where
  "getlines [] cur = (if cur = [] then [] else [cur])"
| "getlines (c # cs) cur =
     (if c = nl then cur # getlines cs [] else getlines cs (cur @ [c]))"

subsection \<open>Data model\<close>

record option_t =
  "identifier" :: string
  is_prepend :: bool

datatype message =
    CouldNotOpen
  | InvalidSet string
  | NotInTypeBlock string

text \<open>
  The globals \<open>variable_map\<close>, \<open>type_options_map\<close> and \<open>raw_code\<close>, the locals
  \<open>current_type\<close>, \<open>is_prepend\<close> and \<open>is_raw\<close> of the parser, and what it printed
  with \<^verbatim>\<open>ERROR_PRINT\<close>.
\<close>

record state =
  variable_map :: "string \<rightharpoonup> string"
  type_options_map :: "string \<rightharpoonup> option_t list"
  raw_code :: "string list"
  current_type :: string
  is_prepend_cur :: bool
  is_raw :: bool
  printed :: "message list"

definition globals0 :: state where
  "globals0 = \<lparr>variable_map = Map.empty, type_options_map = Map.empty, raw_code = [],
     current_type = [], is_prepend_cur = False, is_raw = False, printed = []\<rparr>"

definition comment_str_map :: "string \<rightharpoonup> string" where
  "comment_str_map = map_of
    [(''.c'', ''// ''), (''.cpp'', ''// ''), (''.h'', ''// ''), (''.hpp'', ''// ''),
     (''.py'', ''# ''), (''.java'', ''// ''), (''.js'', ''// ''), (''.ts'', ''// ''),
     (''.rb'', ''# ''), (''.go'', ''// ''), (''.rs'', ''// ''), (''.cs'', ''// ''),
     (''.php'', ''// ''), (''.swift'', ''// ''), (''.kt'', ''// ''), (''.scala'', ''// ''),
     (''.sh'', ''# ''), (''.pl'', ''# ''), (''.r'', ''# ''), (''.lua'', ''-- ''),
     (''.sql'', ''-- ''), (''.asm'', ''; ''), (''.s'', ''; ''), (''.vb'', squote # '' ''),
     (''.vba'', squote # '' ''), (''.m'', ''// ''), (''.mm'', ''// ''), (''.erl'', ''% ''),
     (''.ex'', ''# ''), (''.exs'', ''# ''), (''.hs'', ''-- ''), (''.lisp'', '';; ''),
     (''.clj'', '';; ''), (''.scm'', '';; ''), (''.f90'', ''!''), (''.f95'', ''!''),
     (''.f03'', ''!''), (''.ada'', ''-- ''), (''.pas'', ''// ''), (''.dart'', ''// ''),
     (''.coffee'', ''# ''), (''.groovy'', ''// ''), (''.nim'', ''# ''), (''.rkt'', ''; ''),
     (''.vhd'', ''-- ''), (''.vhdl'', ''-- ''), (''.pro'', ''% ''), (''.sml'', ''(* ''),
     (''.ml'', ''(* ''), (''.bat'', ''REM ''), (''.ps1'', ''# '')]"

subsection \<open>convert_option\<close>

text \<open>The local date that \<open>get_current_date\<close> reads from the clock is the parameter \<open>today\<close>.\<close>

definition convert_option :: "(string \<rightharpoonup> string) \<Rightarrow> string \<Rightarrow> string \<Rightarrow> string \<Rightarrow> string" where
  "convert_option vm today filename opt =
     (if opt = ''<date>'' then ''DATE: '' @ today
      else if opt = ''<file>'' then ''FILE: '' @ filename
      else (case vm opt of Some v \<Rightarrow> v | None \<Rightarrow> opt))"

subsection \<open>parse_config_file\<close>

text \<open>One iteration of the \<^verbatim>\<open>while (std::getline(file, line))\<close> loop.\<close>

definition process_line :: "string \<Rightarrow> state \<Rightarrow> string \<Rightarrow> state option" where
  "process_line file_extension st input = do {
     line \<leftarrow> trim_ws input;
     if line = [] then Some st
     else if find_str line ''SET '' = 0 then
       (let pos = 4; equal_pos = find_chr line CHR ''='' pos in
        if equal_pos = npos then Some (st\<lparr>printed := printed st @ [InvalidSet line]\<rparr>)
        else do {
          name0 \<leftarrow> substr line pos (sz_sub equal_pos pos);
          var_name \<leftarrow> trim_ws name0;
          value0 \<leftarrow> substr line (sz_add equal_pos 1) npos;
          value1 \<leftarrow> trim_ws value0;
          var_value \<leftarrow>
            (if value1 \<noteq> [] \<and> hd value1 = dquote \<and> last value1 = dquote
             then substr value1 1 (sz_sub (length value1) 2) else Some value1);
          Some (st\<lparr>variable_map := (variable_map st)(''<'' @ var_name @ ''>'' \<mapsto> var_value)\<rparr>)
        })
     else if find_str line ''<type '' = 0 then do {
       ty \<leftarrow> substr line 6 (sz_sub (length line) 7);
       Some (st\<lparr>current_type := ty, is_prepend_cur := False, is_raw := False,
                type_options_map :=
                  (if type_options_map st ty = None then (type_options_map st)(ty \<mapsto> [])
                   else type_options_map st)\<rparr>)
     }
     else if find_str line ''<prepend>'' = 0 then Some (st\<lparr>is_prepend_cur := True\<rparr>)
     else if find_str line ''<append>'' = 0 then Some (st\<lparr>is_prepend_cur := False\<rparr>)
     else if find_str line ''<raw>'' = 0 then Some (st\<lparr>is_raw := True\<rparr>)
     else if current_type st = [] then
       Some (st\<lparr>printed := printed st @ [NotInTypeBlock line]\<rparr>)
     else if is_raw st \<and> current_type st = file_extension then
       Some (st\<lparr>raw_code := raw_code st @ [line]\<rparr>)
     else
       Some (st\<lparr>type_options_map := (type_options_map st)(current_type st \<mapsto>
               (case type_options_map st (current_type st) of None \<Rightarrow> [] | Some v \<Rightarrow> v)
               @ [\<lparr>identifier = line, is_prepend = is_prepend_cur st\<rparr>])\<rparr>)
   }"

fun parse_lines :: "string \<Rightarrow> state \<Rightarrow> string list \<Rightarrow> state option" where
  "parse_lines file_extension st [] = Some st"
| "parse_lines file_extension st (l # ls) =
     (case process_line file_extension st l of
        None \<Rightarrow> None
      | Some st' \<Rightarrow> parse_lines file_extension st' ls)"

text \<open>
  The file is its text, or \<open>None\<close> when it cannot be opened. The locals start from
  the empty type, append mode and no raw mode.
\<close>

definition parse_config_file :: "string option \<Rightarrow> string \<Rightarrow> state \<Rightarrow> state option" where
  "parse_config_file file file_extension st =
     (case file of
        None \<Rightarrow> Some (st\<lparr>printed := printed st @ [CouldNotOpen]\<rparr>)
      | Some text \<Rightarrow>
          parse_lines file_extension
            (st\<lparr>current_type := [], is_prepend_cur := False, is_raw := False\<rparr>)
            (getlines text []))"

subsection \<open>main: gathering, merging and rendering\<close>

text \<open>The loop over the options of the target's type, with its two \<^verbatim>\<open>push_back\<close>s.\<close>

fun gather_type :: "option_t list \<Rightarrow> string list \<times> string list \<Rightarrow> string list \<times> string list" where
  "gather_type [] acc = acc"
| "gather_type (opt # opts) (prepend_options, append_options) =
     (if is_prepend opt
      then gather_type opts (prepend_options @ [identifier opt], append_options)
      else gather_type opts (prepend_options, append_options @ [identifier opt]))"

fun gather_default :: "option_t list \<Rightarrow> string list \<Rightarrow> string list" where
  "gather_default [] default_options = default_options"
| "gather_default (opt # opts) default_options =
     gather_default opts (default_options @ [identifier opt])"

definition all_options :: "(string \<rightharpoonup> option_t list) \<Rightarrow> string \<Rightarrow> string list" where
  "all_options tm file_extension =
     (let (prepend_options, append_options) =
            (case tm file_extension of
               Some opts \<Rightarrow> gather_type opts ([], [])
             | None \<Rightarrow> ([], []));
          default_options =
            (case tm ''.all'' of
               Some opts \<Rightarrow> gather_default opts []
             | None \<Rightarrow> [])
      in prepend_options @ default_options @ append_options)"

definition comment_str :: "string \<Rightarrow> string" where
  "comment_str file_extension =
     (case comment_str_map file_extension of Some c \<Rightarrow> c | None \<Rightarrow> ''// '')"

fun add_options :: "(string \<rightharpoonup> string) \<Rightarrow> string \<Rightarrow> string \<Rightarrow> string \<Rightarrow> string list \<Rightarrow> string \<Rightarrow> string" where
  "add_options vm today filename cs [] file_message = file_message"
| "add_options vm today filename cs (opt # opts) file_message =
     add_options vm today filename cs opts
       (file_message @ cs @ convert_option vm today filename opt @ [nl])"

fun add_raw :: "string list \<Rightarrow> string \<Rightarrow> string option" where
  "add_raw [] file_message = Some file_message"
| "add_raw (line # lines) file_message = do {
     trimmed \<leftarrow>
       (if line \<noteq> [] \<and> (hd line = dquote \<or> hd line = squote)
        then substr line 1 (sz_sub (length line) 2) else Some line);
     if trimmed = [backslash, CHR ''n''] then add_raw lines (file_message @ [nl])
     else add_raw lines (file_message @ line @ [nl])
   }"

definition raw_block :: "string list \<Rightarrow> string \<Rightarrow> string option" where
  "raw_block raw file_message =
     (if raw \<noteq> [] then add_raw raw (file_message @ [nl]) else Some file_message)"

definition build_message :: "state \<Rightarrow> string \<Rightarrow> string \<Rightarrow> string \<Rightarrow> string option" where
  "build_message st file_extension filename today =
     raw_block (raw_code st)
       (add_options (variable_map st) today filename (comment_str file_extension)
          (all_options (type_options_map st) file_extension) [])"

definition extension_of :: "string \<Rightarrow> string option" where
  "extension_of filename =
     (let dot_pos = find_last_of filename ''.''
      in if dot_pos \<noteq> npos then substr filename dot_pos npos else Some [])"

text \<open>
  What \<open>main\<close> meets outside the program: its arguments, whether the target can be
  opened for reading, the answer to the overwrite prompt, whether the two
  \<^verbatim>\<open>fopen_s(.., "w")\<close> succeed, the configuration file and the date.
\<close>

record world =
  args :: "string list"
  target_exists :: bool
  confirmed :: bool
  create_ok :: bool
  config_file :: "string option"
  today_is :: string
  write_ok :: bool

text \<open>
  The exit status and the text of the target file as the run leaves it: \<open>None\<close>
  when the run never opened it for writing. The text is what went through the stream,
  before the newline translation of a text-mode stream.
\<close>

record outcome =
  exit_code :: nat
  target :: "string option"

text \<open>
  \<^verbatim>\<open>fprintf(file_out, "%s", file_message.c_str())\<close> writes the message up to its first
  zero byte.
\<close>

definition c_str :: "string \<Rightarrow> string" where
  "c_str s = takeWhile (\<lambda>c. c \<noteq> CHR 0x00) s"

definition main :: "world \<Rightarrow> outcome option" where
  "main w =
     (case args w of
        [] \<Rightarrow> Some \<lparr>exit_code = 1, target = None\<rparr>
      | a # _ \<Rightarrow>
          if a = ''--version'' then Some \<lparr>exit_code = 0, target = None\<rparr>
          else if a = ''--help'' then Some \<lparr>exit_code = 0, target = None\<rparr>
          else if target_exists w \<and> \<not> confirmed w then Some \<lparr>exit_code = 1, target = None\<rparr>
          else if \<not> create_ok w then Some \<lparr>exit_code = 1, target = None\<rparr>
          else do {
            file_extension \<leftarrow> extension_of a;
            st \<leftarrow> parse_config_file (config_file w) file_extension globals0;
            file_message \<leftarrow> build_message st file_extension a (today_is w);
            if \<not> write_ok w then Some \<lparr>exit_code = 1, target = Some []\<rparr>
            else Some \<lparr>exit_code = 0, target = Some (c_str file_message)\<rparr>
          })"

subsection \<open>Closed forms used in the proofs\<close>

text \<open>
  Trimming and quote stripping without size arithmetic, and the effect of one trimmed
  line on the parser's variables. The lemmas \<open>trim_ws_trim\<close>, \<open>substr_strip\<close> and
  \<open>process_line_effect\<close> below prove that the library calls above compute them on
  every string shorter than \<open>2 ^ 64\<close>.
\<close>

definition is_blank :: "char \<Rightarrow> bool" where
  "is_blank c = (c = CHR '' '' \<or> c = tab)"

definition trim :: "string \<Rightarrow> string" where
  "trim s = rev (dropWhile is_blank (rev (dropWhile is_blank s)))"

definition strip_ends :: "string \<Rightarrow> string" where
  "strip_ends s = butlast (tl s)"

definition is_directive :: "string \<Rightarrow> bool" where
  "is_directive t =
     (prefix ''SET '' t \<or> prefix ''<type '' t \<or> prefix ''<prepend>'' t
      \<or> prefix ''<append>'' t \<or> prefix ''<raw>'' t)"

definition set_name :: "string \<Rightarrow> string" where
  "set_name t = trim (takeWhile (\<lambda>c. c \<noteq> CHR ''='') (drop 4 t))"

definition set_value :: "string \<Rightarrow> string" where
  "set_value t =
     (let v = trim (tl (dropWhile (\<lambda>c. c \<noteq> CHR ''='') (drop 4 t)))
      in if v \<noteq> [] \<and> hd v = dquote \<and> last v = dquote then strip_ends v else v)"

definition line_effect :: "string \<Rightarrow> state \<Rightarrow> string \<Rightarrow> state" where
  "line_effect file_extension st t =
     (if t = [] then st
      else if prefix ''SET '' t then
        (if CHR ''='' \<in> set t
         then st\<lparr>variable_map := (variable_map st)(''<'' @ set_name t @ ''>'' \<mapsto> set_value t)\<rparr>
         else st\<lparr>printed := printed st @ [InvalidSet t]\<rparr>)
      else if prefix ''<type '' t then
        st\<lparr>current_type := butlast (drop 6 t), is_prepend_cur := False, is_raw := False,
           type_options_map :=
             (if type_options_map st (butlast (drop 6 t)) = None
              then (type_options_map st)(butlast (drop 6 t) \<mapsto> [])
              else type_options_map st)\<rparr>
      else if prefix ''<prepend>'' t then st\<lparr>is_prepend_cur := True\<rparr>
      else if prefix ''<append>'' t then st\<lparr>is_prepend_cur := False\<rparr>
      else if prefix ''<raw>'' t then st\<lparr>is_raw := True\<rparr>
      else if current_type st = [] then st\<lparr>printed := printed st @ [NotInTypeBlock t]\<rparr>
      else if is_raw st \<and> current_type st = file_extension then
        st\<lparr>raw_code := raw_code st @ [t]\<rparr>
      else
        st\<lparr>type_options_map := (type_options_map st)(current_type st \<mapsto>
             (case type_options_map st (current_type st) of None \<Rightarrow> [] | Some v \<Rightarrow> v)
             @ [\<lparr>identifier = t, is_prepend = is_prepend_cur st\<rparr>])\<rparr>)"

text \<open>What the renderer adds to the message for one raw line.\<close>

definition raw_line_out :: "string \<Rightarrow> string" where
  "raw_line_out line =
     (if (if line \<noteq> [] \<and> (hd line = dquote \<or> hd line = squote) then strip_ends line else line)
         = [backslash, CHR ''n'']
      then [nl] else line @ [nl])"

subsection \<open>The scenario of section 8 of the specification\<close>

text \<open>The configuration text of the scenario, and the state the parser reaches on it.\<close>

definition scenario_config :: string where
  "scenario_config =
     ''<type .py>'' @ [nl] @ ''<prepend>'' @ [nl] @ ''<date>'' @ [nl] @ ''<type .py>'' @ [nl]
     @ ''<append>'' @ [nl] @ ''SET author = '' @ [dquote] @ ''Alice'' @ [dquote] @ [nl]
     @ ''author: <author>''"

definition scenario_state :: state where
  "scenario_state = globals0\<lparr>variable_map := [''<author>'' \<mapsto> ''Alice''],
     type_options_map := [''.py'' \<mapsto> [\<lparr>identifier = ''<date>'', is_prepend = True\<rparr>,
        \<lparr>identifier = ''author: <author>'', is_prepend = False\<rparr>]],
     current_type := ''.py''\<rparr>"

section \<open>The string library computes the closed forms\<close>

lemma npos_pos: "npos \<noteq> 0" "0 \<noteq> npos"
  by (simp_all add: npos_def)

lemma find_str_from_ge: "find_str_from s pat i = npos \<or> i \<le> find_str_from s pat i"
proof (induction s arbitrary: i)
  case Nil
  then show ?case by simp
next
  case (Cons c s)
  from Cons [of "Suc i"] show ?case by auto
qed

lemma find_str_0: "(find_str s pat = 0) = prefix pat s"
proof (cases s)
  case Nil
  then show ?thesis by (simp add: find_str_def npos_def)
next
  case (Cons c r)
  from find_str_from_ge [of r pat "Suc 0"]
  have "find_str_from r pat (Suc 0) \<noteq> 0" by (auto simp: npos_def)
  with Cons show ?thesis by (simp add: find_str_def)
qed

lemma length_trim: "length (trim s) \<le> length s"
proof -
  have "length (trim s) \<le> length (dropWhile is_blank s)"
    unfolding trim_def using length_dropWhile_le [of is_blank "rev (dropWhile is_blank s)"] by simp
  also have "\<dots> \<le> length s" by (rule length_dropWhile_le)
  finally show ?thesis .
qed

lemma in_blanks: "(c \<in> set blanks) = is_blank c"
  by (auto simp: blanks_def is_blank_def)

lemma erase_front:
  assumes "length s < 2 ^ 64"
  shows "erase s 0 (find_first_not_of s blanks) = Some (dropWhile is_blank s)"
proof -
  let ?n = "length (takeWhile is_blank s)"
  have n: "?n \<le> length s" by (rule length_takeWhile_le)
  have d: "dropWhile is_blank s = drop ?n s" by (rule dropWhile_eq_drop)
  show ?thesis
  proof (cases "?n < length s")
    case True
    then show ?thesis by (simp add: erase_def find_first_not_of_def in_blanks d Let_def)
  next
    case False
    with n have e: "?n = length s" by simp
    from assms have "min npos (length s) = length s" by (simp add: npos_def)
    with e show ?thesis by (simp add: erase_def find_first_not_of_def in_blanks d Let_def)
  qed
qed

lemma erase_back:
  assumes "length s < 2 ^ 64"
  shows "erase s (sz_add (find_last_not_of s blanks) 1) npos = Some (rev (dropWhile is_blank (rev s)))"
proof -
  let ?n = "length (takeWhile is_blank (rev s))"
  have n: "?n \<le> length s" using length_takeWhile_le [of is_blank "rev s"] by simp
  have d: "rev (dropWhile is_blank (rev s)) = take (length s - ?n) s"
    by (simp add: dropWhile_eq_drop rev_drop)
  show ?thesis
  proof (cases "?n < length s")
    case True
    with assms have a: "sz_add (length s - 1 - ?n) 1 = length s - ?n"
      by (simp add: sz_add_def)
    from True have "min npos ?n = ?n" using assms by (simp add: npos_def)
    with True a show ?thesis
      by (simp add: erase_def find_last_not_of_def in_blanks d Let_def)
  next
    case False
    with n have e: "?n = length s" by simp
    have "sz_add npos 1 = 0" by (simp add: sz_add_def npos_def)
    with e assms show ?thesis
      by (simp add: erase_def find_last_not_of_def in_blanks d Let_def npos_def)
  qed
qed

lemma trim_ws_trim: "length s < 2 ^ 64 \<Longrightarrow> trim_ws s = Some (trim s)"
proof -
  assume a: "length s < 2 ^ 64"
  have "length (dropWhile is_blank s) \<le> length s" by (rule length_dropWhile_le)
  with a have "length (dropWhile is_blank s) < 2 ^ 64" by simp
  from erase_back [OF this] show ?thesis by (simp add: trim_ws_def erase_front [OF a] trim_def)
qed

lemma sz_sub_exact: "b \<le> a \<Longrightarrow> a < 2 ^ 64 \<Longrightarrow> sz_sub a b = a - b"
  by (simp add: sz_sub_def nat_diff_distrib' of_nat_diff [symmetric] del: of_nat_diff)

lemma sz_sub_1_2: "sz_sub (Suc 0) 2 = npos"
  by (simp add: sz_sub_def npos_def)

lemma sz_add_exact: "a + b < 2 ^ 64 \<Longrightarrow> sz_add a b = a + b"
  by (simp add: sz_add_def)

lemma substr_strip:
  assumes "s \<noteq> []" "length s < 2 ^ 64"
  shows "substr s 1 (sz_sub (length s) 2) = Some (strip_ends s)"
proof (cases "length s = 1")
  case True
  then obtain c where "s = [c]" by (cases s) auto
  then show ?thesis by (simp add: substr_def strip_ends_def)
next
  case False
  moreover from assms(1) have "length s \<noteq> 0" by simp
  ultimately have l: "2 \<le> length s" by arith
  with assms have "sz_sub (length s) 2 = length s - 2" by (simp add: sz_sub_exact)
  moreover have "strip_ends s = take (length s - 2) (drop 1 s)"
    by (simp add: strip_ends_def butlast_conv_take drop_Suc numeral_2_eq_2)
  ultimately show ?thesis using l assms(1) by (simp add: substr_def)
qed

lemma substr_mid: "length a = p \<Longrightarrow> substr (a @ b @ c) p (length b) = Some b"
  by (simp add: substr_def)

lemma substr_rest: "length a = p \<Longrightarrow> length b < 2 ^ 64 \<Longrightarrow> substr (a @ b) p npos = Some b"
  by (simp add: substr_def npos_def)

lemma find_chr_hit:
  assumes "length a = p" "c \<notin> set n"
  shows "find_chr (a @ n @ c # v) c p = p + length n"
proof -
  have "takeWhile (\<lambda>x. x \<noteq> c) (n @ c # v) = n"
    using assms(2) by (induction n) auto
  with assms(1) show ?thesis by (simp add: find_chr_def)
qed

lemma find_chr_miss:
  assumes "c \<notin> set (drop p s)"
  shows "find_chr s c p = npos"
proof -
  have "takeWhile (\<lambda>x. x \<noteq> c) (drop p s) = drop p s"
    using assms by (auto simp: takeWhile_eq_all_conv)
  then have "length (takeWhile (\<lambda>x. x \<noteq> c) (drop p s)) = length (drop p s)"
    by (rule arg_cong)
  then have "length (takeWhile (\<lambda>x. x \<noteq> c) (drop p s)) = length s - p"
    by (simp only: length_drop)
  moreover have "\<not> p + (length s - p) < length s" by arith
  ultimately show ?thesis by (simp add: find_chr_def Let_def)
qed

lemma process_set:
  assumes fit: "length input < 2 ^ 64"
    and t: "trim input = ''SET '' @ n @ CHR ''='' # v"
    and n: "CHR ''='' \<notin> set n"
  shows "process_line ext st input =
    Some (st\<lparr>variable_map := (variable_map st)(''<'' @ trim n @ ''>'' \<mapsto>
      (if trim v \<noteq> [] \<and> hd (trim v) = dquote \<and> last (trim v) = dquote
       then strip_ends (trim v) else trim v))\<rparr>)"
proof -
  let ?t = "trim input"
  have lt: "length ?t < 2 ^ 64" using length_trim [of input] fit by simp
  have len: "length ?t = 5 + length n + length v" by (simp add: t)
  have ln: "length n < 2 ^ 64" and lv: "length v < 2 ^ 64" using lt len by simp_all
  have lw: "length (trim v) < 2 ^ 64" using length_trim [of v] lv by simp
  have pre: "find_str ?t ''SET '' = 0" by (simp add: find_str_0 t)
  have eq: "find_chr ?t CHR ''='' 4 = 4 + length n"
    unfolding t by (rule find_chr_hit) (simp_all add: n)
  have ne: "4 + length n \<noteq> npos" using lt len by (simp add: npos_def)
  have s1: "sz_sub (4 + length n) 4 = length n"
    using lt len by (simp add: sz_sub_exact)
  have s2: "sz_add (4 + length n) (Suc 0) = 5 + length n"
    using lt len by (simp add: sz_add_exact)
  have n0: "substr ?t 4 (length n) = Some n"
    unfolding t by (rule substr_mid) simp
  have "substr ((''SET '' @ n @ ''='') @ v) (5 + length n) npos = Some v"
    by (rule substr_rest) (use lv in simp_all)
  then have v0: "substr ?t (5 + length n) npos = Some v" by (simp add: t)
  have q: "trim v \<noteq> [] \<Longrightarrow>
      substr (trim v) (Suc 0) (sz_sub (length (trim v)) 2) = Some (strip_ends (trim v))"
    using substr_strip [of "trim v"] lw by simp
  have ne0: "?t \<noteq> []" by (simp add: t)
  have t1: "trim_ws input = Some ?t" using fit by (rule trim_ws_trim)
  have t2: "trim_ws n = Some (trim n)" using ln by (rule trim_ws_trim)
  have t3: "trim_ws v = Some (trim v)" using lv by (rule trim_ws_trim)
  show ?thesis
    by (simp add: process_line_def t1 t2 t3 ne0 pre eq ne s1 s2 n0 v0 q Let_def)
qed

lemma substr_type:
  assumes "prefix ''<type '' t" "length t < 2 ^ 64"
  shows "substr t 6 (sz_sub (length t) 7) = Some (butlast (drop 6 t))"
proof -
  from assms(1) obtain r where r: "t = ''<type '' @ r" by (auto elim: prefixE)
  show ?thesis
  proof (cases "r = []")
    case True
    with r show ?thesis by (simp add: substr_def sz_sub_def)
  next
    case False
    then have "1 \<le> length r" by (cases r) auto
    with assms(2) r have "sz_sub (length t) 7 = length r - 1"
      by (simp add: sz_sub_exact)
    with r show ?thesis by (simp add: substr_def butlast_conv_take)
  qed
qed

lemma takeWhile_upto: "c \<notin> set n \<Longrightarrow> takeWhile (\<lambda>x. x \<noteq> c) (n @ c # v) = n"
  by (induction n) auto

lemma dropWhile_upto: "c \<notin> set n \<Longrightarrow> dropWhile (\<lambda>x. x \<noteq> c) (n @ c # v) = c # v"
  by (induction n) auto

lemma process_line_effect:
  assumes fit: "length input < 2 ^ 64"
  shows "process_line ext st input = Some (line_effect ext st (trim input))"
proof -
  let ?t = "trim input"
  have lt: "length ?t < 2 ^ 64" using length_trim [of input] fit by simp
  have t1: "trim_ws input = Some ?t" using fit by (rule trim_ws_trim)
  show ?thesis
  proof (cases "prefix ''SET '' ?t")
    case True
    then obtain r where r: "?t = ''SET '' @ r" by (auto elim: prefixE)
    show ?thesis
    proof (cases "CHR ''='' \<in> set ?t")
      case True
      with r have "CHR ''='' \<in> set r" by simp
      then obtain n v where nv: "r = n @ CHR ''='' # v" "CHR ''='' \<notin> set n"
        by (auto dest: split_list_first)
      from r nv have t: "?t = ''SET '' @ n @ CHR ''='' # v" by simp
      have "set_name ?t = trim n"
        by (simp add: set_name_def t takeWhile_upto nv(2))
      moreover have "set_value ?t =
        (if trim v \<noteq> [] \<and> hd (trim v) = dquote \<and> last (trim v) = dquote
         then strip_ends (trim v) else trim v)"
        by (simp add: set_value_def t dropWhile_upto nv(2) Let_def)
      moreover have "CHR ''='' \<in> set ?t" by fact
      moreover have "prefix ''SET '' ?t" by fact
      moreover have "?t \<noteq> []" by (simp add: t)
      ultimately show ?thesis
        by (simp add: process_set [OF fit t nv(2)] line_effect_def)
    next
      case False
      then have "CHR ''='' \<notin> set (drop 4 ?t)" by (auto dest: in_set_dropD)
      then have "find_chr ?t CHR ''='' 4 = npos" by (rule find_chr_miss)
      moreover have "?t \<noteq> []" using r by simp
      ultimately show ?thesis using True False
        by (simp add: process_line_def t1 find_str_0 line_effect_def Let_def)
    qed
  next
    case False
    show ?thesis
      using False substr_type [OF _ lt]
      by (simp add: process_line_def t1 find_str_0 line_effect_def)
  qed
qed

section \<open>Loops in closed form\<close>

lemma parse_lines_effect:
  assumes "\<forall>l \<in> set ls. length l < 2 ^ 64"
  shows "parse_lines ext st ls = Some (foldl (\<lambda>s l. line_effect ext s (trim l)) st ls)"
  using assms
proof (induction ls arbitrary: st)
  case Nil
  then show ?case by simp
next
  case (Cons l ls)
  then have "process_line ext st l = Some (line_effect ext st (trim l))"
    by (simp add: process_line_effect)
  with Cons show ?case by simp
qed

lemma gather_type_eq:
  "gather_type opts (p, a) =
     (p @ map identifier (filter is_prepend opts),
      a @ map identifier (filter (\<lambda>opt. \<not> is_prepend opt) opts))"
  by (induction opts arbitrary: p a) auto

lemma gather_default_eq: "gather_default opts d = d @ map identifier opts"
  by (induction opts arbitrary: d) auto

lemma add_options_eq:
  "add_options vm today filename cs opts msg =
     msg @ concat (map (\<lambda>opt. cs @ convert_option vm today filename opt @ [nl]) opts)"
  by (induction opts arbitrary: msg) auto

lemma add_raw_eq:
  assumes "\<forall>l \<in> set raw. length l < 2 ^ 64"
  shows "add_raw raw msg = Some (msg @ concat (map raw_line_out raw))"
  using assms
proof (induction raw arbitrary: msg)
  case Nil
  then show ?case by simp
next
  case (Cons l raw)
  then have l: "length l < 2 ^ 64" by simp
  have "l \<noteq> [] \<Longrightarrow> substr l (Suc 0) (sz_sub (length l) 2) = Some (strip_ends l)"
    using substr_strip [of l] l by simp
  with Cons show ?case by (simp add: raw_line_out_def)
qed

section \<open>Effects of one line and of a run\<close>

lemma set_not_type: "prefix ''SET '' t \<Longrightarrow> \<not> prefix ''<type '' t"
  by (cases t) auto

lemma raw_code_effect:
  "raw_code (line_effect ext st t) =
     (if t \<noteq> [] \<and> \<not> is_directive t \<and> current_type st \<noteq> [] \<and> is_raw st \<and> current_type st = ext
      then raw_code st @ [t] else raw_code st)"
  by (simp add: line_effect_def is_directive_def)

lemma current_type_effect:
  "current_type (line_effect ext st t) =
     (if prefix ''<type '' t then butlast (drop 6 t) else current_type st)"
  by (auto simp: line_effect_def dest: set_not_type)

lemma variable_map_effect:
  "variable_map (line_effect ext st t) =
     (if prefix ''SET '' t \<and> CHR ''='' \<in> set t
      then (variable_map st)(''<'' @ set_name t @ ''>'' \<mapsto> set_value t)
      else variable_map st)"
  by (auto simp: line_effect_def)

lemma extension_of_total: "\<exists>e. extension_of a = Some e"
proof -
  let ?n = "length (takeWhile (\<lambda>c. c \<notin> set ''.'') (rev a))"
  have "?n < length a \<Longrightarrow> length a - 1 - ?n \<le> length a" by simp
  then show ?thesis
    by (auto simp: extension_of_def find_last_of_def substr_def Let_def)
qed

lemma raw_untouched:
  assumes "\<forall>l \<in> set ls. \<not> prefix ''<type '' (trim l)" "current_type st \<noteq> ext"
  shows "raw_code (foldl (\<lambda>s l. line_effect ext s (trim l)) st ls) = raw_code st"
  using assms
proof (induction ls arbitrary: st)
  case Nil
  then show ?case by simp
next
  case (Cons l ls)
  let ?s = "line_effect ext st (trim l)"
  from Cons.prems have "current_type ?s \<noteq> ext" by (simp add: current_type_effect)
  with Cons have "raw_code (foldl (\<lambda>s l. line_effect ext s (trim l)) ?s ls) = raw_code ?s"
    by simp
  with Cons.prems show ?case by (simp add: raw_code_effect)
qed

lemma forget_effect:
  "(line_effect ext (st\<lparr>printed := p\<rparr>) t)\<lparr>printed := []\<rparr> = (line_effect ext st t)\<lparr>printed := []\<rparr>"
  by (simp add: line_effect_def)

lemma forget_eq: "s1\<lparr>printed := []\<rparr> = s2\<lparr>printed := []\<rparr> \<Longrightarrow> s1 = s2\<lparr>printed := printed s1\<rparr>"
  by (cases s1, cases s2) simp

lemma forget_fold:
  assumes "s1\<lparr>printed := []\<rparr> = s2\<lparr>printed := []\<rparr>"
  shows "(foldl (\<lambda>s l. line_effect ext s (trim l)) s1 ls)\<lparr>printed := []\<rparr>
     = (foldl (\<lambda>s l. line_effect ext s (trim l)) s2 ls)\<lparr>printed := []\<rparr>"
  using assms
proof (induction ls arbitrary: s1 s2)
  case Nil
  then show ?case by simp
next
  case (Cons l ls)
  from Cons.prems have e: "s1 = s2\<lparr>printed := printed s1\<rparr>" by (rule forget_eq)
  have "(line_effect ext s1 (trim l))\<lparr>printed := []\<rparr>
     = (line_effect ext (s2\<lparr>printed := printed s1\<rparr>) (trim l))\<lparr>printed := []\<rparr>"
    by (rule arg_cong [where f = "\<lambda>s. (line_effect ext s (trim l))\<lparr>printed := []\<rparr>", OF e])
  also have "\<dots> = (line_effect ext s2 (trim l))\<lparr>printed := []\<rparr>" by (rule forget_effect)
  finally have step: "(line_effect ext s1 (trim l))\<lparr>printed := []\<rparr>
     = (line_effect ext s2 (trim l))\<lparr>printed := []\<rparr>" .
  from Cons.IH [OF step] show ?case by simp
qed

lemma getlines_last: "nl \<notin> set l \<Longrightarrow> getlines l cur = (if cur @ l = [] then [] else [cur @ l])"
  by (induction l arbitrary: cur) auto

lemma add_raw_total: "\<exists>r. add_raw raw msg = Some (msg @ r)"
proof (induction raw arbitrary: msg)
  case Nil
  then show ?case by simp
next
  case (Cons l raw)
  have s: "l \<noteq> [] \<Longrightarrow> \<exists>t. substr l (Suc 0) (sz_sub (length l) 2) = Some t"
    by (cases l) (simp_all add: substr_def)
  from Cons [of "msg @ [nl]"] obtain r1 where r1: "add_raw raw (msg @ [nl]) = Some (msg @ [nl] @ r1)"
    by auto
  from Cons [of "msg @ l @ [nl]"] obtain r2 where r2: "add_raw raw (msg @ l @ [nl]) = Some (msg @ l @ [nl] @ r2)"
    by auto
  show ?case
  proof (cases "l \<noteq> [] \<and> (hd l = dquote \<or> hd l = squote)")
    case True
    with s obtain t where "substr l (Suc 0) (sz_sub (length l) 2) = Some t" by blast
    with True r1 r2 show ?thesis by (cases "t = [backslash, CHR ''n'']") auto
  next
    case False
    with r1 r2 show ?thesis by (cases "l = [backslash, CHR ''n'']") auto
  qed
qed

lemma build_message_total:
  "\<exists>r. build_message st ext filename today =
     Some (concat (map (\<lambda>opt. comment_str ext @ convert_option (variable_map st) today filename opt @ [nl])
                  (all_options (type_options_map st) ext)) @ r)"
proof -
  let ?h = "add_options (variable_map st) today filename (comment_str ext)
          (all_options (type_options_map st) ext) []"
  from add_raw_total [of "raw_code st" "?h @ [nl]"] obtain r where
    "add_raw (raw_code st) (?h @ [nl]) = Some (?h @ [nl] @ r)" by auto
  then have "\<exists>r. raw_block (raw_code st) ?h = Some (?h @ r)"
    by (simp add: raw_block_def)
  then show ?thesis by (simp add: build_message_def add_options_eq)
qed

lemma variable_kept:
  assumes "\<forall>l \<in> set ls. \<not> (prefix ''SET '' (trim l) \<and> CHR ''='' \<in> set (trim l) \<and> set_name (trim l) = k)"
  shows "variable_map (foldl (\<lambda>s l. line_effect ext s (trim l)) st ls) (''<'' @ k @ ''>'')
     = variable_map st (''<'' @ k @ ''>'')"
  using assms
proof (induction ls arbitrary: st)
  case Nil
  then show ?case by simp
next
  case (Cons l ls)
  then have "variable_map (line_effect ext st (trim l)) (''<'' @ k @ ''>'') = variable_map st (''<'' @ k @ ''>'')"
    by (auto simp: variable_map_effect)
  with Cons show ?case by simp
qed

lemma scenario_parse:
  "parse_config_file (Some scenario_config) ''.py'' globals0 = Some scenario_state"
proof -
  define setl where "setl = ''SET author = '' @ [dquote] @ ''Alice'' @ [dquote]"
  have g: "getlines scenario_config [] =
      [''<type .py>'', ''<prepend>'', ''<date>'', ''<type .py>'', ''<append>'', setl,
       ''author: <author>'']"
    by (simp add: scenario_config_def setl_def nl_def dquote_def)
  have t: "trim ''<type .py>'' = ''<type .py>''" "trim ''<prepend>'' = ''<prepend>''"
    "trim ''<date>'' = ''<date>''" "trim ''<append>'' = ''<append>''"
    "trim ''author: <author>'' = ''author: <author>''"
    by (simp_all add: trim_def is_blank_def tab_def)
  define v where "v = '' '' @ [dquote] @ ''Alice'' @ [dquote]"
  have ts: "trim setl = ''SET '' @ ''author '' @ CHR ''='' # v"
    "trim ''author '' = ''author''"
    "trim v = [dquote] @ ''Alice'' @ [dquote]"
    by (simp_all add: setl_def v_def trim_def is_blank_def tab_def dquote_def)
  have fs: "length setl < 2 ^ 64" by (simp add: setl_def)
  have s: "line_effect ''.py'' st (trim setl)
      = st\<lparr>variable_map := (variable_map st)(''<author>'' \<mapsto> ''Alice'')\<rparr>" for st
    using process_set [OF fs ts(1), of "''.py''" st] process_line_effect [OF fs, of "''.py''" st]
    by (simp add: ts(2) ts(3) strip_ends_def)
  have f: "\<forall>l \<in> set [''<type .py>'', ''<prepend>'', ''<date>'', ''<type .py>'', ''<append>'', setl,
       ''author: <author>'']. length l < 2 ^ 64"
    using fs by simp
  show ?thesis
    apply (simp only: parse_config_file_def option.case g)
    apply (subst parse_lines_effect [OF f])
    apply (simp only: foldl_Cons foldl_Nil s t)
    apply (simp add: line_effect_def globals0_def scenario_state_def)
    done
qed

lemma scenario_render:
  "build_message scenario_state ''.py'' filename today =
     Some (''# DATE: '' @ today @ [nl] @ ''# author: <author>'' @ [nl])"
  by (simp add: build_message_def scenario_state_def globals0_def all_options_def raw_block_def
      comment_str_def comment_str_map_def convert_option_def)

subsection \<open>From an option line of the configuration to the merged options\<close>

lemma type_kept:
  assumes "\<forall>l \<in> set ls. \<not> prefix ''<type '' (trim l)"
  shows "current_type (foldl (\<lambda>s l. line_effect ext s (trim l)) st ls) = current_type st"
  using assms by (induction ls arbitrary: st) (simp_all add: current_type_effect)

lemma raw_off_effect: "\<not> prefix ''<raw>'' t \<Longrightarrow> \<not> is_raw st \<Longrightarrow> \<not> is_raw (line_effect ext st t)"
  by (simp add: line_effect_def)

lemma raw_stays_off:
  assumes "\<forall>l \<in> set ls. \<not> prefix ''<raw>'' (trim l)" and "\<not> is_raw st"
  shows "\<not> is_raw (foldl (\<lambda>s l. line_effect ext s (trim l)) st ls)"
  using assms
proof (induction ls arbitrary: st)
  case Nil
  then show ?case by simp
next
  case (Cons l ls)
  then have "\<not> is_raw (line_effect ext st (trim l))" by (simp add: raw_off_effect)
  with Cons show ?case by simp
qed

lemma type_effect:
  "line_effect ext st (''<type '' @ T @ ''>'') =
     st\<lparr>current_type := T, is_prepend_cur := False, is_raw := False,
        type_options_map :=
          (if type_options_map st T = None then (type_options_map st)(T \<mapsto> [])
           else type_options_map st)\<rparr>"
proof -
  have "butlast (drop 6 (''<type '' @ T @ ''>'')) = T" by (simp add: butlast_append)
  then show ?thesis by (simp add: line_effect_def)
qed

lemma option_stored:
  assumes "t \<noteq> []" and "\<not> is_directive t" and "current_type st \<noteq> []"
    and "\<not> (is_raw st \<and> current_type st = ext)"
  shows "\<exists>opts. type_options_map (line_effect ext st t) (current_type st) = Some opts
    \<and> t \<in> identifier ` set opts"
  using assms by (auto simp: line_effect_def is_directive_def)

lemma option_kept:
  assumes "type_options_map st T = Some opts" and "k \<in> identifier ` set opts"
  shows "\<exists>opts'. type_options_map (line_effect ext st t) T = Some opts'
    \<and> k \<in> identifier ` set opts'"
  using assms by (auto simp: line_effect_def)

lemma options_kept:
  assumes "\<exists>opts. type_options_map st T = Some opts \<and> k \<in> identifier ` set opts"
  shows "\<exists>opts. type_options_map (foldl (\<lambda>s l. line_effect ext s (trim l)) st ls) T = Some opts
    \<and> k \<in> identifier ` set opts"
  using assms
proof (induction ls arbitrary: st)
  case Nil
  then show ?case by simp
next
  case (Cons l ls)
  from Cons.prems obtain opts where "type_options_map st T = Some opts" "k \<in> identifier ` set opts"
    by blast
  then have "\<exists>opts'. type_options_map (line_effect ext st (trim l)) T = Some opts'
    \<and> k \<in> identifier ` set opts'" by (rule option_kept)
  from Cons.IH [OF this] show ?case by simp
qed

lemma set_all_options:
  "set (all_options tm ext) =
     identifier ` set (case tm ext of None \<Rightarrow> [] | Some opts \<Rightarrow> opts)
     \<union> identifier ` set (case tm ''.all'' of None \<Rightarrow> [] | Some opts \<Rightarrow> opts)"
  by (auto simp: all_options_def gather_type_eq gather_default_eq split: option.splits)

lemma merged_has:
  assumes "type_options_map st T = Some opts" and "k \<in> identifier ` set opts"
    and "T = ext \<or> T = ''.all''"
  shows "k \<in> set (all_options (type_options_map st) ext)"
  using assms by (auto simp: set_all_options)

lemma option_line_merged:
  assumes ty: "trim tyline = ''<type '' @ T @ ''>''" and ne: "T \<noteq> []"
    and app: "T = ext \<or> T = ''.all''"
    and nty: "\<forall>l \<in> set between. \<not> prefix ''<type '' (trim l)"
    and nraw: "T \<noteq> ext \<or> (\<forall>l \<in> set between. \<not> prefix ''<raw>'' (trim l))"
    and opt: "trim optline \<noteq> []" "\<not> is_directive (trim optline)"
  shows "trim optline \<in> set (all_options (type_options_map
      (foldl (\<lambda>s l. line_effect ext s (trim l)) st0
         (before @ tyline # between @ optline # after))) ext)"
proof -
  let ?f = "\<lambda>s l. line_effect ext s (trim l)"
  define s1 where "s1 = line_effect ext (foldl ?f st0 before) (trim tyline)"
  define s2 where "s2 = foldl ?f s1 between"
  define s3 where "s3 = line_effect ext s2 (trim optline)"
  have whole: "foldl ?f st0 (before @ tyline # between @ optline # after) = foldl ?f s3 after"
    by (simp add: s1_def s2_def s3_def)
  have s1: "current_type s1 = T" "\<not> is_raw s1"
    unfolding s1_def ty type_effect by simp_all
  have c2: "current_type s2 = T"
    unfolding s2_def using type_kept [OF nty, of ext s1] s1(1) by simp
  have r2: "\<not> (is_raw s2 \<and> current_type s2 = ext)"
  proof (cases "T = ext")
    case True
    with nraw have "\<forall>l \<in> set between. \<not> prefix ''<raw>'' (trim l)" by simp
    from raw_stays_off [OF this s1(2), of ext] show ?thesis by (simp add: s2_def)
  next
    case False
    with c2 show ?thesis by simp
  qed
  from ne c2 have "current_type s2 \<noteq> []" by simp
  from option_stored [OF opt this r2]
  have "\<exists>opts. type_options_map s3 T = Some opts \<and> trim optline \<in> identifier ` set opts"
    by (simp add: s3_def c2)
  from options_kept [OF this, of ext after]
  obtain opts where "type_options_map (foldl ?f s3 after) T = Some opts"
    "trim optline \<in> identifier ` set opts" by blast
  from merged_has [OF this app] show ?thesis by (simp only: whole)
qed

text \<open>
  In raw mode of the target's own group the line \<open><author>\<close> is raw code: it is
  written as it stands and no variable is looked up.
\<close>

lemma raw_placeholder_example:
  "parse_lines ''.py'' globals0 [''SET author = Alice'', ''<type .py>'', ''<raw>'', ''<author>'']
     = Some (globals0\<lparr>variable_map := [''<author>'' \<mapsto> ''Alice''], current_type := ''.py'',
          is_raw := True, type_options_map := [''.py'' \<mapsto> []], raw_code := [''<author>'']\<rparr>)
   \<and> build_message
        (globals0\<lparr>variable_map := [''<author>'' \<mapsto> ''Alice''], current_type := ''.py'',
          is_raw := True, type_options_map := [''.py'' \<mapsto> []], raw_code := [''<author>'']\<rparr>)
        ''.py'' ''a.py'' today
     = Some ([nl] @ ''<author>'' @ [nl])"
proof -
  have t: "trim ''SET author = Alice'' = ''SET author = Alice''"
    "trim ''<type .py>'' = ''<type .py>''" "trim ''<raw>'' = ''<raw>''"
    "trim ''<author>'' = ''<author>''"
    by (simp_all add: trim_def is_blank_def tab_def)
  have s: "line_effect ''.py'' st ''SET author = Alice''
      = st\<lparr>variable_map := (variable_map st)(''<author>'' \<mapsto> ''Alice'')\<rparr>" for st
    by (simp add: line_effect_def set_name_def set_value_def trim_def is_blank_def tab_def
        dquote_def)
  have f: "\<forall>l \<in> set [''SET author = Alice'', ''<type .py>'', ''<raw>'', ''<author>''].
      length l < 2 ^ 64" by simp
  have p: "parse_lines ''.py'' globals0 [''SET author = Alice'', ''<type .py>'', ''<raw>'', ''<author>'']
     = Some (globals0\<lparr>variable_map := [''<author>'' \<mapsto> ''Alice''], current_type := ''.py'',
          is_raw := True, type_options_map := [''.py'' \<mapsto> []], raw_code := [''<author>'']\<rparr>)"
    apply (subst parse_lines_effect [OF f])
    apply (simp only: foldl_Cons foldl_Nil t s)
    apply (simp add: line_effect_def globals0_def)
    done
  have b: "build_message
        (globals0\<lparr>variable_map := [''<author>'' \<mapsto> ''Alice''], current_type := ''.py'',
          is_raw := True, type_options_map := [''.py'' \<mapsto> []], raw_code := [''<author>'']\<rparr>)
        ''.py'' ''a.py'' today
     = Some ([nl] @ ''<author>'' @ [nl])"
    by (simp add: build_message_def all_options_def raw_block_def globals0_def
        backslash_def dquote_def squote_def)
  from p b show ?thesis by (rule conjI)
qed

section \<open>The claims\<close>

subsection \<open>C1: a variable as an option line\<close>

text \<open>
  Claim C1, as amended. \<open>convert_option\<close> looks the whole option line up in the
  variable map, so a placeholder inside a longer line is left as it is, and a line
  captured as raw code is never converted. What holds: take a configuration with a line
  \<open>SET name = value\<close> whose name is not \<open>date\<close> or \<open>file\<close>, with no later
  \<open>SET\<close> line for the same name, and with an option line that is exactly \<open><name>\<close>
  and no directive, such that the last \<open><type X>\<close> directive before that option line
  names the target extension or \<open>.all\<close> (\<open>X\<close> not empty) and, when \<open>X\<close> is the
  target extension, no \<open><raw>\<close> directive lies between the two. Then parsing returns
  and the rendered message contains the comment prefix followed by the trimmed value,
  without its first and last character when it starts and ends with a double quote,
  followed by a newline. For the scenario of section 8 and the extension \<open>.py\<close> the
  rendered lines are \<open># DATE: \<close> with the date and \<open># author: <author>\<close>.
\<close>
theorem set_placeholder_rendered:
  assumes "\<forall>l \<in> set cfg. length l < 2 ^ 64"
    and "cfg = pre @ input # post"
    and "trim input = ''SET '' @ n @ CHR ''='' # v"
    and "CHR ''='' \<notin> set n"
    and "trim n \<noteq> ''date''" and "trim n \<noteq> ''file''"
    and "\<forall>l \<in> set post. \<not> (prefix ''SET '' (trim l) \<and> CHR ''='' \<in> set (trim l)
           \<and> set_name (trim l) = trim n)"
    and "cfg = before @ tyline # between @ optline # after"
    and "trim tyline = ''<type '' @ T @ ''>''" and "T \<noteq> []"
    and "T = ext \<or> T = ''.all''"
    and "\<forall>l \<in> set between. \<not> prefix ''<type '' (trim l)"
    and "T \<noteq> ext \<or> (\<forall>l \<in> set between. \<not> prefix ''<raw>'' (trim l))"
    and "trim optline = ''<'' @ trim n @ ''>''"
    and "\<not> is_directive (trim optline)"
  shows "(\<exists>st msg. parse_lines ext init cfg = Some st
    \<and> build_message st ext filename today = Some msg
    \<and> sublist (comment_str ext
         @ (if trim v \<noteq> [] \<and> hd (trim v) = dquote \<and> last (trim v) = dquote
            then butlast (tl (trim v)) else trim v)
         @ [nl]) msg)
    \<and> (\<exists>s. parse_config_file (Some scenario_config) ''.py'' globals0 = Some s
         \<and> build_message s ''.py'' filename today
             = Some (''# DATE: '' @ today @ [nl] @ ''# author: <author>'' @ [nl]))"
proof -
  let ?f = "\<lambda>s l. line_effect ext s (trim l)"
  define key where "key = ''<'' @ trim n @ ''>''"
  define val where "val = (if trim v \<noteq> [] \<and> hd (trim v) = dquote \<and> last (trim v) = dquote
            then butlast (tl (trim v)) else trim v)"
  define st where "st = foldl ?f init cfg"
  let ?s1 = "foldl ?f init pre"
  let ?g = "\<lambda>opt. comment_str ext @ convert_option (variable_map st) today filename opt @ [nl]"
  have parsed: "parse_lines ext init cfg = Some st"
    unfolding st_def using assms(1) by (rule parse_lines_effect)
  have fit: "length input < 2 ^ 64" using assms(1) assms(2) by simp
  have st: "st = foldl ?f (line_effect ext ?s1 (trim input)) post"
    by (simp add: st_def assms(2))
  have "Some (line_effect ext ?s1 (trim input)) =
      Some (?s1\<lparr>variable_map := (variable_map ?s1)(key \<mapsto> val)\<rparr>)"
    using process_set [OF fit assms(3) assms(4), of ext ?s1] process_line_effect [OF fit, of ext ?s1]
    by (simp add: strip_ends_def key_def val_def)
  then have "variable_map (line_effect ext ?s1 (trim input)) key = Some val" by simp
  with variable_kept [OF assms(7), of ext "line_effect ext ?s1 (trim input)"]
  have vm: "variable_map st key = Some val" by (simp only: st key_def)
  from assms(5) assms(6) have "key \<noteq> ''<date>''" "key \<noteq> ''<file>''"
    by (simp_all add: key_def)
  with vm have c: "convert_option (variable_map st) today filename key = val"
    by (simp add: convert_option_def)
  have "trim optline \<noteq> []" by (simp add: assms(14))
  from option_line_merged [OF assms(9) assms(10) assms(11) assms(12) assms(13) this assms(15),
      of init before after]
  have "key \<in> set (all_options (type_options_map st) ext)"
    unfolding st_def assms(8) key_def assms(14) .
  then obtain xs ys where "all_options (type_options_map st) ext = xs @ key # ys"
    by (auto dest: split_list)
  then have "concat (map ?g (all_options (type_options_map st) ext))
      = concat (map ?g xs) @ (comment_str ext @ val @ [nl]) @ concat (map ?g ys)"
    by (simp add: c)
  moreover from build_message_total [of st ext filename today] obtain r where
    "build_message st ext filename today
       = Some (concat (map ?g (all_options (type_options_map st) ext)) @ r)" by blast
  ultimately have "build_message st ext filename today
       = Some (concat (map ?g xs) @ (comment_str ext @ val @ [nl]) @ (concat (map ?g ys) @ r))"
    by simp
  then have "\<exists>msg. build_message st ext filename today = Some msg
    \<and> sublist (comment_str ext @ val @ [nl]) msg"
    unfolding sublist_def by blast
  with parsed have general: "\<exists>st msg. parse_lines ext init cfg = Some st
    \<and> build_message st ext filename today = Some msg
    \<and> sublist (comment_str ext
         @ (if trim v \<noteq> [] \<and> hd (trim v) = dquote \<and> last (trim v) = dquote
            then butlast (tl (trim v)) else trim v)
         @ [nl]) msg"
    unfolding val_def by blast
  have "\<exists>s. parse_config_file (Some scenario_config) ''.py'' globals0 = Some s
         \<and> build_message s ''.py'' filename today
             = Some (''# DATE: '' @ today @ [nl] @ ''# author: <author>'' @ [nl])"
    using scenario_parse scenario_render by blast
  with general show ?thesis by blast
qed

theorem set_placeholder_rendered_witness:
  "(case parse_lines ''.py'' globals0
       [''SET author = '' @ [dquote] @ ''Alice'' @ [dquote], ''<type .py>'', ''<prepend>'',
        ''  <author>'', ''<raw>'', ''import os''] of
      None \<Rightarrow> False
    | Some st \<Rightarrow>
       (case build_message st ''.py'' ''a.py'' ''2025-03-01'' of
          None \<Rightarrow> False
        | Some msg \<Rightarrow> sublist (''# Alice'' @ [nl]) msg))"
proof -
  define input where "input = ''SET author = '' @ [dquote] @ ''Alice'' @ [dquote]"
  define v where "v = '' '' @ [dquote] @ ''Alice'' @ [dquote]"
  define cfg where "cfg = [input, ''<type .py>'', ''<prepend>'', ''  <author>'', ''<raw>'', ''import os'']"
  have t: "trim input = ''SET '' @ ''author '' @ CHR ''='' # v" "trim ''author '' = ''author''"
    "trim v = [dquote] @ ''Alice'' @ [dquote]" "trim ''<type .py>'' = ''<type '' @ ''.py'' @ ''>''"
    "trim ''  <author>'' = ''<author>''" "trim ''<prepend>'' = ''<prepend>''"
    "trim ''<raw>'' = ''<raw>''" "trim ''import os'' = ''import os''"
    by (simp_all add: input_def v_def trim_def is_blank_def tab_def dquote_def)
  have fits: "\<forall>l \<in> set cfg. length l < 2 ^ 64"
    by (simp add: cfg_def input_def)
  have a: "cfg = [] @ input # [''<type .py>'', ''<prepend>'', ''  <author>'', ''<raw>'', ''import os'']"
    by (simp add: cfg_def)
  have b: "cfg = [input] @ ''<type .py>'' # [''<prepend>''] @ ''  <author>'' # [''<raw>'', ''import os'']"
    by (simp add: cfg_def)
  have later: "\<forall>l \<in> set [''<type .py>'', ''<prepend>'', ''  <author>'', ''<raw>'', ''import os''].
      \<not> (prefix ''SET '' (trim l) \<and> CHR ''='' \<in> set (trim l) \<and> set_name (trim l) = trim ''author '')"
    by (simp add: t)
  have btw: "\<forall>l \<in> set [''<prepend>'']. \<not> prefix ''<type '' (trim l)"
    "''.py'' \<noteq> ''.py'' \<or> (\<forall>l \<in> set [''<prepend>'']. \<not> prefix ''<raw>'' (trim l))"
    by (simp_all add: t)
  have o: "trim ''  <author>'' = ''<'' @ trim ''author '' @ ''>''" "\<not> is_directive (trim ''  <author>'')"
    by (simp_all add: t is_directive_def)
  have c: "comment_str ''.py'' = ''# ''" by (simp add: comment_str_def comment_str_map_def)
  from set_placeholder_rendered [OF fits a t(1) _ _ _ later b t(4) _ _ btw o,
      where init = globals0 and filename = "''a.py''" and today = "''2025-03-01''"]
  obtain st msg where "parse_lines ''.py'' globals0 cfg = Some st"
    "build_message st ''.py'' ''a.py'' ''2025-03-01'' = Some msg"
    "sublist (''# Alice'' @ [nl]) msg"
    by (auto simp: t c)
  then show ?thesis unfolding cfg_def input_def by simp
qed

text \<open>
  Claim C1 as stated fails on the scenario of section 8: \<open>main\<close> writes
  \<open># author: <author>\<close> as the second line, not \<open># author: Alice\<close>.
\<close>
theorem scenario_counterexample:
  "main \<lparr>args = [''new.py''], target_exists = False, confirmed = False, create_ok = True,
          config_file = Some scenario_config, today_is = ''2025-03-01'', write_ok = True\<rparr>
     = Some \<lparr>exit_code = 0,
          target = Some (''# DATE: 2025-03-01'' @ [nl] @ ''# author: <author>'' @ [nl])\<rparr>
   \<and> ''# DATE: 2025-03-01'' @ [nl] @ ''# author: <author>'' @ [nl]
     \<noteq> ''# DATE: 2025-03-01'' @ [nl] @ ''# author: Alice'' @ [nl]"
proof -
  have e: "extension_of ''new.py'' = Some ''.py''"
    by (simp add: extension_of_def find_last_of_def substr_def npos_def)
  show ?thesis
    by (simp add: main_def e scenario_parse scenario_render c_str_def nl_def)
qed

subsection \<open>C2: raw mode in the default group\<close>

text \<open>
  Claim C2, as amended. For the configuration \<open><type .all>\<close>, \<open><raw>\<close> and one more
  line, and every target extension other than \<open>.all\<close>, the raw-lines list after
  parsing is empty and the rendered message is the option lines alone, with no raw block.
\<close>
theorem all_group_never_raw:
  assumes "ext \<noteq> ''.all''" and "length l < 2 ^ 64" and "nl \<notin> set l"
  shows "\<exists>st. parse_config_file (Some (''<type .all>'' @ [nl] @ ''<raw>'' @ [nl] @ l)) ext globals0 = Some st
    \<and> raw_code st = []
    \<and> build_message st ext filename today =
        Some (add_options (variable_map st) today filename (comment_str ext)
                (all_options (type_options_map st) ext) [])"
proof -
  let ?f = "\<lambda>s l. line_effect ext s (trim l)"
  let ?s0 = "globals0\<lparr>current_type := [], is_prepend_cur := False, is_raw := False\<rparr>"
  let ?ls = "[''<type .all>'', ''<raw>''] @ (if l = [] then [] else [l])"
  have g: "getlines (''<type .all>'' @ [nl] @ ''<raw>'' @ [nl] @ l) [] = ?ls"
    using assms(3) by (simp add: nl_def getlines_last)
  have f: "\<forall>x \<in> set ?ls. length x < 2 ^ 64" using assms(2) by simp
  have t: "trim ''<type .all>'' = ''<type .all>''" "trim ''<raw>'' = ''<raw>''"
    by (simp_all add: trim_def is_blank_def tab_def)
  let ?s2 = "line_effect ext (line_effect ext ?s0 ''<type .all>'') ''<raw>''"
  have s2: "raw_code ?s2 = [] \<and> current_type ?s2 = ''.all''"
    by (simp add: line_effect_def globals0_def)
  let ?st = "foldl ?f ?s0 ?ls"
  have p: "parse_config_file (Some (''<type .all>'' @ [nl] @ ''<raw>'' @ [nl] @ l)) ext globals0 = Some ?st"
    by (simp only: parse_config_file_def option.case g parse_lines_effect [OF f])
  have "?st = (if l = [] then ?s2 else line_effect ext ?s2 (trim l))"
    by (simp only: foldl_Cons foldl_Nil foldl_append t if_distrib [of "foldl ?f _"] split: if_split)
  then have r: "raw_code ?st = []"
    using s2 assms(1) by (simp only: raw_code_effect split: if_split) auto
  then have b: "build_message ?st ext filename today =
        Some (add_options (variable_map ?st) today filename (comment_str ext)
                (all_options (type_options_map ?st) ext) [])"
    by (simp only: build_message_def raw_block_def if_False simp_thms)
  from p r b show ?thesis by blast
qed

theorem all_group_never_raw_witness:
  "map_option raw_code
       (parse_config_file (Some (''<type .all>'' @ [nl] @ ''<raw>'' @ [nl] @ [backslash, CHR ''n'']))
          ''.py'' globals0) = Some []"
  using all_group_never_raw [of "''.py''" "[backslash, CHR ''n'']"]
  by (auto simp: nl_def backslash_def)

text \<open>
  Claim C2 as stated fails for the target extension \<open>.all\<close>, which \<open>main\<close> computes
  for a file name such as \<open>notes.all\<close>: the raw line is captured and a raw block is
  written.
\<close>
theorem all_group_raw_counterexample:
  "extension_of ''notes.all'' = Some ''.all''
   \<and> map_option raw_code
       (parse_config_file (Some (''<type .all>'' @ [nl] @ ''<raw>'' @ [nl] @ [backslash, CHR ''n'']))
          ''.all'' globals0)
     = Some [[backslash, CHR ''n'']]
   \<and> main \<lparr>args = [''notes.all''], target_exists = False, confirmed = False, create_ok = True,
          config_file = Some (''<type .all>'' @ [nl] @ ''<raw>'' @ [nl] @ [backslash, CHR ''n'']),
          today_is = ''2025-03-01'', write_ok = True\<rparr>
     = Some \<lparr>exit_code = 0, target = Some [nl, nl]\<rparr>"
proof -
  define cfg where "cfg = ''<type .all>'' @ [nl] @ ''<raw>'' @ [nl] @ [backslash, CHR ''n'']"
  let ?st = "globals0\<lparr>current_type := ''.all'', is_raw := True,
      type_options_map := [''.all'' \<mapsto> []], raw_code := [[backslash, CHR ''n'']]\<rparr>"
  have e: "extension_of ''notes.all'' = Some ''.all''"
    by (simp add: extension_of_def find_last_of_def substr_def npos_def)
  have g: "getlines cfg [] = [''<type .all>'', ''<raw>'', [backslash, CHR ''n'']]"
    by (simp add: cfg_def nl_def backslash_def)
  have t: "trim ''<type .all>'' = ''<type .all>''" "trim ''<raw>'' = ''<raw>''"
    "trim [backslash, CHR ''n''] = [backslash, CHR ''n'']"
    by (simp_all add: trim_def is_blank_def tab_def backslash_def)
  have p: "parse_config_file (Some cfg) ''.all'' globals0 = Some ?st"
    apply (simp only: parse_config_file_def option.case g)
    apply (subst parse_lines_effect)
     apply simp
    apply (simp only: foldl_Cons foldl_Nil t)
    apply (simp add: line_effect_def globals0_def backslash_def)
    done
  have b: "build_message ?st ''.all'' ''notes.all'' ''2025-03-01'' = Some [nl, nl]"
    by (simp add: build_message_def all_options_def raw_block_def globals0_def
        backslash_def dquote_def squote_def)
  have m: "main \<lparr>args = [''notes.all''], target_exists = False, confirmed = False, create_ok = True,
          config_file = Some cfg, today_is = ''2025-03-01'', write_ok = True\<rparr>
     = Some \<lparr>exit_code = 0, target = Some [nl, nl]\<rparr>"
    by (simp add: main_def e p b c_str_def nl_def)
  from e p m have "extension_of ''notes.all'' = Some ''.all''
   \<and> map_option raw_code (parse_config_file (Some cfg) ''.all'' globals0)
     = Some [[backslash, CHR ''n'']]
   \<and> main \<lparr>args = [''notes.all''], target_exists = False, confirmed = False, create_ok = True,
          config_file = Some cfg, today_is = ''2025-03-01'', write_ok = True\<rparr>
     = Some \<lparr>exit_code = 0, target = Some [nl, nl]\<rparr>"
    by simp
  then show ?thesis unfolding cfg_def .
qed

subsection \<open>C3: the order of the merged options\<close>

text \<open>
  Claim C3. Whatever the type groups hold, the merged option sequence of \<open>main\<close> is
  the identifiers of the prepend-tagged options of the target extension's group in
  insertion order, then the identifiers of every option of the \<open>.all\<close> group in
  insertion order, whatever their tags, then the identifiers of the append-tagged options
  of the target's group in insertion order; with \<open>N\<close> prepend-tagged and \<open>M\<close>
  append-tagged options in the target's group and \<open>K\<close> options in the \<open>.all\<close>
  group it has \<open>N + M + K\<close> entries. An absent group counts as an empty one.
\<close>
theorem merged_order:
  "all_options tm ext =
     map identifier (filter is_prepend (case tm ext of None \<Rightarrow> [] | Some opts \<Rightarrow> opts))
     @ map identifier (case tm ''.all'' of None \<Rightarrow> [] | Some opts \<Rightarrow> opts)
     @ map identifier (filter (\<lambda>opt. \<not> is_prepend opt) (case tm ext of None \<Rightarrow> [] | Some opts \<Rightarrow> opts))
   \<and> length (all_options tm ext) =
     length (filter is_prepend (case tm ext of None \<Rightarrow> [] | Some opts \<Rightarrow> opts))
     + length (filter (\<lambda>opt. \<not> is_prepend opt) (case tm ext of None \<Rightarrow> [] | Some opts \<Rightarrow> opts))
     + length (case tm ''.all'' of None \<Rightarrow> [] | Some opts \<Rightarrow> opts)"
proof -
  let ?T = "case tm ext of None \<Rightarrow> [] | Some opts \<Rightarrow> opts"
  let ?A = "case tm ''.all'' of None \<Rightarrow> [] | Some opts \<Rightarrow> opts"
  have target: "(case tm ext of Some opts \<Rightarrow> gather_type opts ([], []) | None \<Rightarrow> ([], []))
      = (map identifier (filter is_prepend ?T), map identifier (filter (\<lambda>opt. \<not> is_prepend opt) ?T))"
    by (cases "tm ext") (simp_all add: gather_type_eq)
  have default: "(case tm ''.all'' of Some opts \<Rightarrow> gather_default opts [] | None \<Rightarrow> [])
      = map identifier ?A"
    by (cases "tm ''.all''") (simp_all add: gather_default_eq)
  have "all_options tm ext = map identifier (filter is_prepend ?T) @ map identifier ?A
      @ map identifier (filter (\<lambda>opt. \<not> is_prepend opt) ?T)"
    unfolding all_options_def target default by simp
  then show ?thesis by simp
qed

subsection \<open>C4: which lines are captured as raw code\<close>

text \<open>
  Claim C4. One iteration of the parser loop appends the trimmed line to the raw-lines
  list if and only if the line is non-empty and no directive, a type group is open
  (\<open>current_type\<close> is not empty), raw mode is active and the open type group equals
  the target extension; the line is then not stored as an \<open>option\<close>. In every other
  case the raw-lines list is unchanged, and a non-directive line of an open type group
  that is not captured is stored at the end of that group with the current prepend flag.
  So no line is captured while another type group is open: as long as the open type
  group differs from the target extension and no \<open><type\<close> directive comes, a run
  over any number of lines leaves the raw-lines list as it was.
\<close>
theorem raw_capture_iff:
  assumes "length input < 2 ^ 64"
  shows "\<exists>st'. process_line ext st input = Some st'
    \<and> ((raw_code st' = raw_code st @ [trim input]) =
         (trim input \<noteq> [] \<and> \<not> is_directive (trim input)
          \<and> current_type st \<noteq> [] \<and> is_raw st \<and> current_type st = ext))
    \<and> (raw_code st' \<noteq> raw_code st @ [trim input] \<longrightarrow> raw_code st' = raw_code st)
    \<and> (raw_code st' = raw_code st @ [trim input] \<longrightarrow> type_options_map st' = type_options_map st)
    \<and> (trim input \<noteq> [] \<and> \<not> is_directive (trim input) \<and> current_type st \<noteq> []
         \<and> \<not> (is_raw st \<and> current_type st = ext) \<longrightarrow>
         type_options_map st' (current_type st) =
           Some ((case type_options_map st (current_type st) of None \<Rightarrow> [] | Some v \<Rightarrow> v)
                 @ [\<lparr>identifier = trim input, is_prepend = is_prepend_cur st\<rparr>]))
    \<and> (\<forall>ls. (\<forall>l \<in> set ls. length l < 2 ^ 64 \<and> \<not> prefix ''<type '' (trim l))
           \<and> current_type st \<noteq> ext \<longrightarrow>
           (\<exists>st''. parse_lines ext st ls = Some st'' \<and> raw_code st'' = raw_code st))"
proof -
  let ?s = "line_effect ext st (trim input)"
  have p: "process_line ext st input = Some ?s" using assms by (rule process_line_effect)
  have a: "(raw_code ?s = raw_code st @ [trim input]) =
         (trim input \<noteq> [] \<and> \<not> is_directive (trim input)
          \<and> current_type st \<noteq> [] \<and> is_raw st \<and> current_type st = ext)"
    by (auto simp: raw_code_effect)
  have b: "raw_code ?s \<noteq> raw_code st @ [trim input] \<longrightarrow> raw_code ?s = raw_code st"
    by (simp add: raw_code_effect)
  have c: "raw_code ?s = raw_code st @ [trim input] \<longrightarrow> type_options_map ?s = type_options_map st"
    by (auto simp: raw_code_effect line_effect_def is_directive_def)
  have d: "trim input \<noteq> [] \<and> \<not> is_directive (trim input) \<and> current_type st \<noteq> []
         \<and> \<not> (is_raw st \<and> current_type st = ext) \<longrightarrow>
         type_options_map ?s (current_type st) =
           Some ((case type_options_map st (current_type st) of None \<Rightarrow> [] | Some v \<Rightarrow> v)
                 @ [\<lparr>identifier = trim input, is_prepend = is_prepend_cur st\<rparr>])"
    by (auto simp: line_effect_def is_directive_def)
  have e: "\<forall>ls. (\<forall>l \<in> set ls. length l < 2 ^ 64 \<and> \<not> prefix ''<type '' (trim l))
           \<and> current_type st \<noteq> ext \<longrightarrow>
           (\<exists>st''. parse_lines ext st ls = Some st'' \<and> raw_code st'' = raw_code st)"
    by (simp add: parse_lines_effect raw_untouched)
  from p a b c d e show ?thesis by blast
qed

theorem raw_capture_iff_witness:
  "map_option raw_code
     (process_line ''.py'' (globals0\<lparr>current_type := ''.py'', is_raw := True\<rparr>) ''  print(1) '')
     = Some [''print(1)'']
   \<and> map_option (\<lambda>s. (raw_code s, type_options_map s ''.c''))
     (process_line ''.py'' (globals0\<lparr>current_type := ''.c'', is_raw := True\<rparr>) ''int x;'')
     = Some ([], Some [\<lparr>identifier = ''int x;'', is_prepend = False\<rparr>])
   \<and> map_option raw_code
     (parse_lines ''.py'' (globals0\<lparr>current_type := ''.c'', is_raw := True\<rparr>) [''int x;'', ''<raw>''])
     = Some []"
proof -
  let ?S1 = "globals0\<lparr>current_type := ''.py'', is_raw := True\<rparr>"
  let ?S2 = "globals0\<lparr>current_type := ''.c'', is_raw := True\<rparr>"
  have t: "trim ''  print(1) '' = ''print(1)''" "trim ''int x;'' = ''int x;''" "trim ''<raw>'' = ''<raw>''"
    by (simp_all add: trim_def is_blank_def tab_def)
  have "length ''  print(1) '' < 2 ^ 64" by simp
  from raw_capture_iff [OF this, of "''.py''" ?S1]
  have 1: "map_option raw_code (process_line ''.py'' ?S1 ''  print(1) '') = Some [''print(1)'']"
    by (auto simp: t is_directive_def globals0_def)
  have "length ''int x;'' < 2 ^ 64" by simp
  from raw_capture_iff [OF this, of "''.py''" ?S2]
  obtain st' where p: "process_line ''.py'' ?S2 ''int x;'' = Some st'"
    and r: "raw_code st' = []"
    and o: "type_options_map st' ''.c'' = Some [\<lparr>identifier = ''int x;'', is_prepend = False\<rparr>]"
    and l: "\<forall>ls. (\<forall>l \<in> set ls. length l < 2 ^ 64 \<and> \<not> prefix ''<type '' (trim l))
           \<and> current_type ?S2 \<noteq> ''.py'' \<longrightarrow>
           (\<exists>st''. parse_lines ''.py'' ?S2 ls = Some st'' \<and> raw_code st'' = raw_code ?S2)"
    by (auto simp: t is_directive_def globals0_def)
  from l [THEN spec, of "[''int x;'', ''<raw>'']"]
  have 3: "map_option raw_code (parse_lines ''.py'' ?S2 [''int x;'', ''<raw>'']) = Some []"
    by (auto simp: t globals0_def)
  from 1 p r o 3 show ?thesis by simp
qed

subsection \<open>C5: the raw block\<close>

text \<open>
  Claim C5. When the raw-lines list is not empty, the renderer appends one newline (the
  blank separator) to the message and then, for each raw line in order: a blank line
  when the copy of the line without its first and its last character (taken when the
  line starts with a double or a single quote, the line itself otherwise) is
  backslash-n, and the original line followed by a newline otherwise.
\<close>
theorem raw_block_emits:
  assumes "raw \<noteq> []" and "\<forall>l \<in> set raw. length l < 2 ^ 64"
  shows "raw_block raw msg =
    Some (msg @ [nl] @ concat (map
      (\<lambda>line.
         if (if line \<noteq> [] \<and> (hd line = dquote \<or> hd line = squote)
             then butlast (tl line) else line) = [backslash, CHR ''n'']
         then [nl] else line @ [nl]) raw))"
proof -
  have "raw_line_out = (\<lambda>line.
         if (if line \<noteq> [] \<and> (hd line = dquote \<or> hd line = squote)
             then butlast (tl line) else line) = [backslash, CHR ''n'']
         then [nl] else line @ [nl])"
    by (rule ext) (simp only: raw_line_out_def strip_ends_def)
  with assms show ?thesis by (simp add: raw_block_def add_raw_eq)
qed

theorem raw_block_emits_witness:
  "raw_block [[dquote, backslash, CHR ''n'', dquote], ''int x;'', [squote], [backslash, CHR ''n'']] ''// a''
     = Some (''// a'' @ [nl] @ [nl] @ ''int x;'' @ [nl] @ [squote] @ [nl] @ [nl])"
  using raw_block_emits [of "[[dquote, backslash, CHR ''n'', dquote], ''int x;'', [squote], [backslash, CHR ''n'']]" "''// a''"]
  by (simp add: dquote_def squote_def backslash_def)

subsection \<open>C6: the type directive\<close>

text \<open>
  Claim C6. A \<open><type X>\<close> directive makes \<open>X\<close> the current type and sets prepend
  mode and raw mode to false. It creates the group \<open>X\<close> empty when it is absent and
  leaves the options of an existing group \<open>X\<close> as they are; no other group, no
  variable, no raw line and no message changes. An option line that follows (with \<open>X\<close>
  not empty) is stored at the end of group \<open>X\<close> with the append tag, whatever the
  modes were before the directive.
\<close>
theorem type_directive_resets:
  assumes "length input < 2 ^ 64" and "trim input = ''<type '' @ X @ ''>''"
  shows "\<exists>st'. process_line ext st input = Some st'
    \<and> current_type st' = X \<and> \<not> is_prepend_cur st' \<and> \<not> is_raw st'
    \<and> type_options_map st' X = Some (case type_options_map st X of None \<Rightarrow> [] | Some v \<Rightarrow> v)
    \<and> (\<forall>Y. Y \<noteq> X \<longrightarrow> type_options_map st' Y = type_options_map st Y)
    \<and> variable_map st' = variable_map st \<and> raw_code st' = raw_code st
    \<and> printed st' = printed st
    \<and> (\<forall>l. length l < 2 ^ 64 \<and> trim l \<noteq> [] \<and> \<not> is_directive (trim l) \<and> X \<noteq> [] \<longrightarrow>
         (\<exists>st''. process_line ext st' l = Some st''
            \<and> type_options_map st'' X =
                Some ((case type_options_map st X of None \<Rightarrow> [] | Some v \<Rightarrow> v)
                      @ [\<lparr>identifier = trim l, is_prepend = False\<rparr>])))"
proof -
  let ?s = "line_effect ext st (trim input)"
  have p: "process_line ext st input = Some ?s" using assms(1) by (rule process_line_effect)
  have x: "butlast (drop 6 (trim input)) = X" by (simp add: assms(2) butlast_append)
  have s: "?s = st\<lparr>current_type := X, is_prepend_cur := False, is_raw := False,
           type_options_map :=
             (if type_options_map st X = None then (type_options_map st)(X \<mapsto> [])
              else type_options_map st)\<rparr>"
    using x by (simp add: line_effect_def assms(2))
  have o: "type_options_map ?s X = Some (case type_options_map st X of None \<Rightarrow> [] | Some v \<Rightarrow> v)"
    by (auto simp: s)
  have l: "\<forall>l. length l < 2 ^ 64 \<and> trim l \<noteq> [] \<and> \<not> is_directive (trim l) \<and> X \<noteq> [] \<longrightarrow>
         (\<exists>st''. process_line ext ?s l = Some st''
            \<and> type_options_map st'' X =
                Some ((case type_options_map st X of None \<Rightarrow> [] | Some v \<Rightarrow> v)
                      @ [\<lparr>identifier = trim l, is_prepend = False\<rparr>]))"
  proof (intro allI impI)
    fix l
    assume h: "length l < 2 ^ 64 \<and> trim l \<noteq> [] \<and> \<not> is_directive (trim l) \<and> X \<noteq> []"
    then have "process_line ext ?s l = Some (line_effect ext ?s (trim l))"
      by (simp add: process_line_effect)
    moreover have "type_options_map (line_effect ext ?s (trim l)) X =
                Some ((case type_options_map st X of None \<Rightarrow> [] | Some v \<Rightarrow> v)
                      @ [\<lparr>identifier = trim l, is_prepend = False\<rparr>])"
      using h o unfolding s by (auto simp: line_effect_def is_directive_def)
    ultimately show "\<exists>st''. process_line ext ?s l = Some st''
            \<and> type_options_map st'' X =
                Some ((case type_options_map st X of None \<Rightarrow> [] | Some v \<Rightarrow> v)
                      @ [\<lparr>identifier = trim l, is_prepend = False\<rparr>])"
      by blast
  qed
  have r: "current_type ?s = X \<and> \<not> is_prepend_cur ?s \<and> \<not> is_raw ?s
    \<and> (\<forall>Y. Y \<noteq> X \<longrightarrow> type_options_map ?s Y = type_options_map st Y)
    \<and> variable_map ?s = variable_map st \<and> raw_code ?s = raw_code st
    \<and> printed ?s = printed st"
    by (simp add: s)
  from p o l r show ?thesis by blast
qed

theorem type_directive_resets_witness:
  "map_option (\<lambda>s. (current_type s, is_prepend_cur s, is_raw s, type_options_map s ''.py''))
     (process_line ''.c''
        (globals0\<lparr>current_type := ''.c'', is_prepend_cur := True, is_raw := True,
           type_options_map := [''.py'' \<mapsto> [\<lparr>identifier = ''<date>'', is_prepend = True\<rparr>]]\<rparr>)
        ''<type .py>'')
     = Some (''.py'', False, False, Some [\<lparr>identifier = ''<date>'', is_prepend = True\<rparr>])
   \<and> map_option (\<lambda>s. type_options_map s ''.py'')
     (parse_lines ''.c''
        (globals0\<lparr>current_type := ''.c'', is_prepend_cur := True, is_raw := True,
           type_options_map := [''.py'' \<mapsto> [\<lparr>identifier = ''<date>'', is_prepend = True\<rparr>]]\<rparr>)
        [''<type .py>'', ''<file>''])
     = Some (Some [\<lparr>identifier = ''<date>'', is_prepend = True\<rparr>,
                   \<lparr>identifier = ''<file>'', is_prepend = False\<rparr>])"
proof -
  let ?S = "globals0\<lparr>current_type := ''.c'', is_prepend_cur := True, is_raw := True,
           type_options_map := [''.py'' \<mapsto> [\<lparr>identifier = ''<date>'', is_prepend = True\<rparr>]]\<rparr>"
  have t: "trim ''<type .py>'' = ''<type '' @ ''.py'' @ ''>''" "trim ''<file>'' = ''<file>''"
    by (simp_all add: trim_def is_blank_def tab_def)
  have "length ''<type .py>'' < 2 ^ 64" by simp
  from type_directive_resets [OF this t(1), of "''.c''" ?S]
  obtain st' where p: "process_line ''.c'' ?S ''<type .py>'' = Some st'"
    and f: "current_type st' = ''.py''" "\<not> is_prepend_cur st'" "\<not> is_raw st'"
    and o: "type_options_map st' ''.py'' = Some [\<lparr>identifier = ''<date>'', is_prepend = True\<rparr>]"
    and l: "\<forall>l. length l < 2 ^ 64 \<and> trim l \<noteq> [] \<and> \<not> is_directive (trim l) \<and> ''.py'' \<noteq> [] \<longrightarrow>
         (\<exists>st''. process_line ''.c'' st' l = Some st''
            \<and> type_options_map st'' ''.py'' =
                Some ((case type_options_map ?S ''.py'' of None \<Rightarrow> [] | Some v \<Rightarrow> v)
                      @ [\<lparr>identifier = trim l, is_prepend = False\<rparr>]))"
    by (auto simp: globals0_def)
  from l [THEN spec, of "''<file>''"]
  obtain st'' where q: "process_line ''.c'' st' ''<file>'' = Some st''"
    and r: "type_options_map st'' ''.py'' = Some [\<lparr>identifier = ''<date>'', is_prepend = True\<rparr>,
                   \<lparr>identifier = ''<file>'', is_prepend = False\<rparr>]"
    by (auto simp: t is_directive_def globals0_def)
  from p f o q r show ?thesis by simp
qed

subsection \<open>C7: a configuration file that is missing or empty\<close>

text \<open>
  Claim C7. When the configuration file cannot be opened or is empty and \<open>main\<close> gets
  as far as creating the target file, the parser returns with no variable, no type group
  and no raw line, having printed one error when the file could not be opened and none
  when it is empty; the rendered message is the empty string, and the run leaves the
  target file created and empty (with exit status 0, or 1 when the final open for
  writing fails).
\<close>
theorem missing_config:
  assumes "config_file w = None \<or> config_file w = Some []"
    and "args w = a # rest" and "a \<noteq> ''--version''" and "a \<noteq> ''--help''"
    and "target_exists w \<longrightarrow> confirmed w" and "create_ok w"
  shows "\<exists>ext st. extension_of a = Some ext
    \<and> parse_config_file (config_file w) ext globals0 = Some st
    \<and> variable_map st = Map.empty \<and> type_options_map st = Map.empty \<and> raw_code st = []
    \<and> printed st = (if config_file w = None then [CouldNotOpen] else [])
    \<and> build_message st ext a (today_is w) = Some []
    \<and> main w = Some \<lparr>exit_code = (if write_ok w then 0 else 1), target = Some []\<rparr>"
proof -
  obtain ext where ext: "extension_of a = Some ext" using extension_of_total by blast
  let ?st = "globals0\<lparr>printed := (if config_file w = None then [CouldNotOpen] else [])\<rparr>"
  have p: "parse_config_file (config_file w) ext globals0 = Some ?st"
    using assms(1) by (auto simp: parse_config_file_def globals0_def)
  have b: "build_message ?st ext a (today_is w) = Some []"
    by (simp add: build_message_def raw_block_def all_options_def globals0_def)
  have m: "main w = Some \<lparr>exit_code = (if write_ok w then 0 else 1), target = Some []\<rparr>"
    using assms(2-6) by (simp add: main_def ext p b c_str_def)
  have "variable_map ?st = Map.empty \<and> type_options_map ?st = Map.empty \<and> raw_code ?st = []
    \<and> printed ?st = (if config_file w = None then [CouldNotOpen] else [])"
    by (simp add: globals0_def)
  with ext p b m show ?thesis by blast
qed

theorem missing_config_witness:
  "main \<lparr>args = [''a.py''], target_exists = False, confirmed = False, create_ok = True,
          config_file = None, today_is = ''2025-03-01'', write_ok = True\<rparr>
     = Some \<lparr>exit_code = 0, target = Some []\<rparr>
   \<and> main \<lparr>args = [''a.py''], target_exists = True, confirmed = True, create_ok = True,
          config_file = Some [], today_is = ''2025-03-01'', write_ok = False\<rparr>
     = Some \<lparr>exit_code = 1, target = Some []\<rparr>"
  using missing_config [of "\<lparr>args = [''a.py''], target_exists = False, confirmed = False, create_ok = True,
          config_file = None, today_is = ''2025-03-01'', write_ok = True\<rparr>" "''a.py''" "[]"]
    missing_config [of "\<lparr>args = [''a.py''], target_exists = True, confirmed = True, create_ok = True,
          config_file = Some [], today_is = ''2025-03-01'', write_ok = False\<rparr>" "''a.py''" "[]"]
  by auto

subsection \<open>C8: bad lines are logged and skipped\<close>

text \<open>
  Claim C8. A \<open>SET\<close> line without \<open>=\<close>, and an option line met while no type group
  is open, changes nothing but the list of printed errors, which gets one more entry.
  Parsing goes on with the next line from that state and returns a state when all lines
  are shorter than \<open>2 ^ 64\<close>; apart from the printed errors the result is the result
  of parsing without the bad line.
\<close>
theorem bad_line_skipped:
  assumes "length input < 2 ^ 64"
    and "(prefix ''SET '' (trim input) \<and> CHR ''='' \<notin> set (trim input))
       \<or> (trim input \<noteq> [] \<and> \<not> is_directive (trim input) \<and> current_type st = [])"
    and "\<forall>l \<in> set rest. length l < 2 ^ 64"
  shows "\<exists>m. m = (if prefix ''SET '' (trim input) then InvalidSet (trim input)
                  else NotInTypeBlock (trim input))
    \<and> process_line ext st input = Some (st\<lparr>printed := printed st @ [m]\<rparr>)
    \<and> parse_lines ext st (input # rest) = parse_lines ext (st\<lparr>printed := printed st @ [m]\<rparr>) rest
    \<and> (\<exists>st' st''. parse_lines ext st (input # rest) = Some st' \<and> parse_lines ext st rest = Some st''
          \<and> st'\<lparr>printed := []\<rparr> = st''\<lparr>printed := []\<rparr>)"
proof -
  let ?t = "trim input"
  let ?f = "\<lambda>s l. line_effect ext s (trim l)"
  let ?m = "if prefix ''SET '' ?t then InvalidSet ?t else NotInTypeBlock ?t"
  let ?s = "st\<lparr>printed := printed st @ [?m]\<rparr>"
  have p: "process_line ext st input = Some (line_effect ext st ?t)"
    using assms(1) by (rule process_line_effect)
  have e: "line_effect ext st ?t = ?s"
    using assms(2) by (auto simp: line_effect_def is_directive_def)
  have a: "parse_lines ext st (input # rest) = Some (foldl ?f ?s rest)"
    using assms(3) by (simp add: p e parse_lines_effect)
  have b: "parse_lines ext st rest = Some (foldl ?f st rest)"
    using assms(3) by (simp add: parse_lines_effect)
  have c: "parse_lines ext ?s rest = Some (foldl ?f ?s rest)"
    using assms(3) by (simp add: parse_lines_effect)
  have "?s\<lparr>printed := []\<rparr> = st\<lparr>printed := []\<rparr>" by simp
  then have d: "(foldl ?f ?s rest)\<lparr>printed := []\<rparr> = (foldl ?f st rest)\<lparr>printed := []\<rparr>"
    by (rule forget_fold)
  from p e a b c d show ?thesis by simp
qed

theorem bad_line_skipped_witness:
  "process_line ''.py'' globals0 ''SET author Alice''
     = Some (globals0\<lparr>printed := [InvalidSet ''SET author Alice'']\<rparr>)
   \<and> process_line ''.py'' globals0 ''<date>''
     = Some (globals0\<lparr>printed := [NotInTypeBlock ''<date>'']\<rparr>)
   \<and> parse_lines ''.py'' globals0 [''SET author Alice'', ''<type .py>'']
     = parse_lines ''.py'' (globals0\<lparr>printed := [InvalidSet ''SET author Alice'']\<rparr>) [''<type .py>'']"
proof -
  have t: "trim ''SET author Alice'' = ''SET author Alice''" "trim ''<date>'' = ''<date>''"
    by (simp_all add: trim_def is_blank_def tab_def)
  have g: "printed globals0 = []" "current_type globals0 = []" by (simp_all add: globals0_def)
  from bad_line_skipped [of "''SET author Alice''" globals0 "[''<type .py>'']" "''.py''"]
  have 1: "process_line ''.py'' globals0 ''SET author Alice''
     = Some (globals0\<lparr>printed := [InvalidSet ''SET author Alice'']\<rparr>)
   \<and> parse_lines ''.py'' globals0 [''SET author Alice'', ''<type .py>'']
     = parse_lines ''.py'' (globals0\<lparr>printed := [InvalidSet ''SET author Alice'']\<rparr>) [''<type .py>'']"
    by (simp add: t g)
  from bad_line_skipped [of "''<date>''" globals0 "[]" "''.py''"]
  have 2: "process_line ''.py'' globals0 ''<date>''
     = Some (globals0\<lparr>printed := [NotInTypeBlock ''<date>'']\<rparr>)"
    by (simp add: t g is_directive_def)
  from 1 2 show ?thesis by simp
qed

subsection \<open>C9: the built-in placeholders come first\<close>

text \<open>
  Claim C9. For every variable map \<open>convert_option\<close> resolves \<open><date>\<close> to
  \<open>DATE: \<close> followed by the date and \<open><file>\<close> to \<open>FILE: \<close> followed by the
  file name. A line \<open>SET date = x\<close> or \<open>SET file = x\<close> is stored under the key
  \<open><date>\<close> or \<open><file>\<close>, and the two identifiers resolve as before in the
  state it leaves.
\<close>
theorem builtin_placeholders:
  assumes "length input < 2 ^ 64"
    and "trim input = ''SET '' @ n @ CHR ''='' # v"
    and "CHR ''='' \<notin> set n"
    and "trim n = ''date'' \<or> trim n = ''file''"
  shows "convert_option vm today filename ''<date>'' = ''DATE: '' @ today
    \<and> convert_option vm today filename ''<file>'' = ''FILE: '' @ filename
    \<and> (\<exists>st'. process_line ext st input = Some st'
         \<and> variable_map st' (''<'' @ trim n @ ''>'') \<noteq> None
         \<and> convert_option (variable_map st') today filename ''<date>'' = ''DATE: '' @ today
         \<and> convert_option (variable_map st') today filename ''<file>'' = ''FILE: '' @ filename)"
  using process_set [OF assms(1) assms(2) assms(3), of ext st]
  by (simp add: convert_option_def)

theorem builtin_placeholders_witness:
  "map_option (\<lambda>s. (variable_map s ''<date>'', convert_option (variable_map s) ''2025-03-01'' ''a.py'' ''<date>''))
     (process_line ''.py'' globals0 ''SET date = x'')
     = Some (Some ''x'', ''DATE: 2025-03-01'')"
  using builtin_placeholders [of "''SET date = x''" "''date ''" "'' x''" Map.empty "''2025-03-01''" "''a.py''" "''.py''" globals0]
    process_set [of "''SET date = x''" "''date ''" "'' x''" "''.py''" globals0]
  by (auto simp: trim_def is_blank_def tab_def dquote_def globals0_def)

subsection \<open>C10: a value or raw line that is a single quote character\<close>

text \<open>
  Claim C10. For a string that is one quote character, the count \<open>size - 2\<close> of the
  quote-stripping \<open>substr(1, size - 2)\<close> wraps around to \<open>2 ^ 64 - 1\<close>, and the call
  returns the empty string without throwing. So a \<open>SET\<close> line whose trimmed value is
  one double quote (the quote character that \<open>SET\<close> strips) stores the empty string,
  and a raw line that is one double or single quote is compared as the empty string
  and emitted unchanged, followed by a newline.
\<close>
theorem single_quote_char:
  assumes "length input < 2 ^ 64"
    and "trim input = ''SET '' @ n @ CHR ''='' # v"
    and "CHR ''='' \<notin> set n"
    and "trim v = [dquote]"
    and "q = dquote \<or> q = squote"
  shows "sz_sub (length [q]) 2 = 2 ^ 64 - 1
    \<and> substr [q] 1 (sz_sub (length [q]) 2) = Some []
    \<and> process_line ext st input =
        Some (st\<lparr>variable_map := (variable_map st)(''<'' @ trim n @ ''>'' \<mapsto> [])\<rparr>)
    \<and> add_raw ([q] # rest) msg = add_raw rest (msg @ [q, nl])
    \<and> raw_block [[q]] msg = Some (msg @ [nl, q, nl])"
proof -
  have a: "sz_sub (length [q]) 2 = 2 ^ 64 - 1" by (simp add: sz_sub_def)
  have b: "substr [q] 1 (sz_sub (length [q]) 2) = Some []" by (simp add: substr_def)
  have c: "process_line ext st input =
        Some (st\<lparr>variable_map := (variable_map st)(''<'' @ trim n @ ''>'' \<mapsto> [])\<rparr>)"
    using process_set [OF assms(1) assms(2) assms(3), of ext st] assms(4)
    by (simp add: strip_ends_def)
  from b have b': "substr [q] (Suc 0) (sz_sub (Suc 0) 2) = Some []" by simp
  have d: "add_raw ([q] # rest) msg = add_raw rest (msg @ [q, nl])"
    using assms(5) b' by (auto simp: backslash_def dquote_def squote_def)
  have e: "raw_block [[q]] msg = Some (msg @ [nl, q, nl])"
    using assms(5) b' by (auto simp: raw_block_def backslash_def dquote_def squote_def)
  from a b c d e show ?thesis by blast
qed

theorem single_quote_char_witness:
  "length (''SET x = '' @ [dquote]) < 2 ^ 64
   \<and> trim (''SET x = '' @ [dquote]) = ''SET '' @ ''x '' @ CHR ''='' # ('' '' @ [dquote])
   \<and> process_line ''.c'' globals0 (''SET x = '' @ [dquote]) =
        Some (globals0\<lparr>variable_map := (variable_map globals0)(''<x>'' \<mapsto> [])\<rparr>)
   \<and> raw_block [[squote]] ''// a'' = Some (''// a'' @ [nl, squote, nl])"
  using single_quote_char [of "''SET x = '' @ [dquote]" "''x ''" "'' '' @ [dquote]" squote "''.c''" globals0 "[]" "''// a''"]
  by (simp add: trim_def is_blank_def dquote_def tab_def)

end
